theory Spec2Isabelle
  imports Main "HOL-Library.Word"
begin

section \<open>The Node transport of the NATS client, as a state machine\<close>

text \<open>
  The source is the class \<^verbatim>\<open>NodeTransport\<close> of \<^verbatim>\<open>src/node_transport.ts\<close>. Its methods
  run on one event loop: a method or a socket callback runs to completion, and an
  \<^verbatim>\<open>async\<close> method gives the loop back at each \<^verbatim>\<open>await\<close>. The embedding keeps this
  shape. The fields of the class are a record, every method is a function on the
  record, every socket callback is an event, and the part of an \<^verbatim>\<open>async\<close> method after
  an \<^verbatim>\<open>await\<close> is a function of its own that runs when the awaited promise settles.
  Whatever else reaches the transport between the two halves is an event between them.
\<close>

subsection \<open>Values\<close>

text \<open>A frame is a \<^verbatim>\<open>Uint8Array\<close>.\<close>

type_synonym frame = "8 word list"

text \<open>
  What the code throws, rejects with and passes as a cause is an \<^verbatim>\<open>Error\<close> object or
  \<^verbatim>\<open>undefined\<close>. A system error carries the optional property \<^verbatim>\<open>code\<close>; a
  \<^verbatim>\<open>TypeError\<close> is what the language raises on a property read of \<^verbatim>\<open>undefined\<close>.
\<close>

datatype error =
    Error "string option" string
  | TypeError string
  | NatsError string "error option"

type_synonym cause = "error option"

text \<open>The property \<^verbatim>\<open>code\<close> of an error object, \<^verbatim>\<open>undefined\<close> being \<open>None\<close>.\<close>

fun code :: "error \<Rightarrow> string option" where
  "code (Error c m) = c"
| "code (TypeError m) = None"
| "code (NatsError c chained) = Some c"

text \<open>
  Modelled from the spec: \<^verbatim>\<open>ErrorCode.CONNECTION_REFUSED\<close> and
  \<^verbatim>\<open>NatsError.errorForCode\<close> belong to \<^verbatim>\<open>nats-base-client\<close>, which is not part of the
  source at hand. The spec calls them constructors for typed errors, and the refused
  connection is "remapped to a public CONNECTION_REFUSED error kind" that wraps the
  error it came from.
\<close>

definition CONNECTION_REFUSED :: string where
  "CONNECTION_REFUSED = ''CONNECTION_REFUSED''"

definition errorForCode :: "string \<Rightarrow> error \<Rightarrow> error" where
  "errorForCode c chainedError = NatsError c (Some chainedError)"

text \<open>
  Modelled from the spec: \<^verbatim>\<open>deferred\<close> is imported from \<^verbatim>\<open>nats-base-client\<close> too. It is
  a promise that carries its own \<^verbatim>\<open>resolve\<close> and \<^verbatim>\<open>reject\<close>: "a single-shot,
  multi-waiter future", so settling a settled one changes nothing.
\<close>

datatype 'a promise = Pending | Resolved 'a | Rejected cause

definition resolve :: "'a promise \<Rightarrow> 'a \<Rightarrow> 'a promise" where
  "resolve p v = (case p of Pending \<Rightarrow> Resolved v | Resolved w \<Rightarrow> p | Rejected e \<Rightarrow> p)"

text \<open>\<^verbatim>\<open>new TextEncoder().encode\<close> on a string of ASCII characters.\<close>

definition TextEncoder_encode :: "string \<Rightarrow> frame" where
  "TextEncoder_encode s = map of_char s"

text \<open>\<^verbatim>\<open>DataBuffer.concat(...this.yields)\<close>: the chunks end to end.\<close>

definition DataBuffer_concat :: "frame list \<Rightarrow> frame" where
  "DataBuffer_concat chunks = concat chunks"

subsection \<open>The transport and its surroundings\<close>

datatype tls_option = TlsUndefined | TlsBoolean bool | TlsObject "(string \<times> string) list"

record ConnectionOptions =
  debug :: bool
  tls :: tls_option

text \<open>The parsed greeting: the one member the transport reads, and the text it came from.\<close>

record info =
  tls_required :: bool
  json :: string

text \<open>
  The collaborators from \<^verbatim>\<open>nats-base-client\<close> that the handshake calls are parameters
  of the model: the line extractor, the greeting pattern \<^verbatim>\<open>INFO\<close> (its first group),
  \<^verbatim>\<open>JSON.parse\<close> on that group (\<open>Inl\<close> is the error it throws) and the option checker
  (\<open>Some\<close> is the error it throws).
\<close>

record ext =
  extractProtocolMessage :: "frame \<Rightarrow> string option"
  INFO_exec :: "string \<Rightarrow> string option"
  JSON_parse :: "string \<Rightarrow> error + info"
  checkOptions :: "info \<Rightarrow> ConnectionOptions \<Rightarrow> error option"

text \<open>The class of the object behind \<^verbatim>\<open>this.socket\<close>.\<close>

datatype sock = Socket | TLSSocket

text \<open>
  The listeners the transport has on a socket at a moment. Each method that attaches
  listeners attaches a whole group (data, error, close, and the callback of the
  connect), and \<^verbatim>\<open>removeAllListeners\<close> removes the group.
\<close>

datatype handlers = NoListeners | DialListeners | PeekListeners | TLSListeners | PumpListeners

text \<open>
  Where the one call of \<^verbatim>\<open>connect\<close> stands: not made, suspended at one of its three
  \<^verbatim>\<open>await\<close>s (with the parameter \<^verbatim>\<open>options\<close> it still needs), or settled.
\<close>

datatype stage =
    Idle
  | AwaitDial ConnectionOptions
  | AwaitPeekInfo ConnectionOptions
  | AwaitStartTLS
  | Fulfilled
  | Failed cause

text \<open>Who waits for the callback of a \<^verbatim>\<open>socket.write\<close>: a caller of \<^verbatim>\<open>send\<close>, or a
  call of \<^verbatim>\<open>_closed\<close> suspended at its \<^verbatim>\<open>await this.send(...)\<close>.\<close>

datatype waiter = Caller | Shutdown

text \<open>Where the generator \<^verbatim>\<open>iterate\<close> is suspended.\<close>

datatype iter = AwaitSignal | AtYield | Completed

text \<open>
  The first seven fields are the fields of the class (\<^verbatim>\<open>done\<close> is \<open>done_flag\<close>). The
  others are the transport's surroundings: the listeners attached, the variable that
  the error listener of the current group writes (\<^verbatim>\<open>dialError\<close>, \<^verbatim>\<open>peekError\<close>,
  \<^verbatim>\<open>tlsError\<close>, \<^verbatim>\<open>connError\<close>), the call of \<^verbatim>\<open>connect\<close>, what was asked of the
  sockets, the calls of \<^verbatim>\<open>closedNotification.resolve\<close> in order, and the consumer of
  the frames with what it has been given.
\<close>

record transport =
  socket :: "sock option"
  yields :: "frame list"
  signal :: "unit promise"
  closedNotification :: "cause promise"
  options :: "ConnectionOptions option"
  connected :: bool
  done_flag :: bool
  listeners :: handlers
  captured :: cause
  stage :: stage
  dialed :: "(string \<times> nat) option"
  noDelay :: bool
  tlsOpts :: "(string \<times> string) list option"
  written :: "frame list"
  pending :: "waiter list"
  destroyed :: bool
  resolve_calls :: "cause list"
  iter :: iter
  observed :: "frame list"

text \<open>A new transport: the field initialisers of the class.\<close>

definition init :: transport where
  "init = \<lparr> socket = None, yields = [], signal = Pending, closedNotification = Pending,
      options = None, connected = False, done_flag = False,
      listeners = NoListeners, captured = None, stage = Idle, dialed = None,
      noDelay = False, tlsOpts = None, written = [], pending = [], destroyed = False,
      resolve_calls = [], iter = AwaitSignal, observed = [] \<rparr>"

definition VERSION :: string where
  "VERSION = ''2.0.0-0''"

definition LANG :: string where
  "LANG = ''nats.js''"

subsection \<open>Status queries\<close>

definition isClosed :: "transport \<Rightarrow> bool" where
  "isClosed t = done_flag t"

definition isEncrypted :: "transport \<Rightarrow> bool" where
  "isEncrypted t = (socket t = Some TLSSocket)"

definition closed :: "transport \<Rightarrow> cause promise" where
  "closed t = closedNotification t"

subsection \<open>Sending\<close>

text \<open>
  \<^verbatim>\<open>send\<close> returns a promise: already resolved when the transport is closed, otherwise
  one that the callback of the write settles. Reading \<^verbatim>\<open>this.options.debug\<close> before
  any \<^verbatim>\<open>connect\<close>, or \<^verbatim>\<open>this.socket.write\<close> with no socket, throws. The second
  argument says who waits for the promise; the console output of the debug mode is
  not part of the state.
\<close>

datatype send_result = SendResolved | SendDeferred | SendThrows error

definition send :: "frame \<Rightarrow> waiter \<Rightarrow> transport \<Rightarrow> send_result \<times> transport" where
  "send frame who t =
     (if isClosed t then (SendResolved, t)
      else case options t of
        None \<Rightarrow> (SendThrows (TypeError ''options is undefined''), t)
      | Some opts \<Rightarrow>
          (case socket t of
             None \<Rightarrow> (SendThrows (TypeError ''socket is undefined''), t)
           | Some s \<Rightarrow>
               (SendDeferred,
                t\<lparr>written := written t @ [frame], pending := pending t @ [who]\<rparr>)))"

subsection \<open>The shutdown coordinator\<close>

text \<open>
  \<^verbatim>\<open>_closed\<close> from its second \<^verbatim>\<open>try\<close> on: the listeners go and the socket is destroyed
  if there is one, \<^verbatim>\<open>done\<close> is set, then the notification is resolved.
\<close>

definition closed_finish :: "cause \<Rightarrow> transport \<Rightarrow> transport" where
  "closed_finish err t =
     (let t1 = (case socket t of
                  None \<Rightarrow> t
                | Some s \<Rightarrow> t\<lparr>listeners := NoListeners, destroyed := True\<rparr>);
          t2 = t1\<lparr>done_flag := True\<rparr>
      in t2\<lparr>closedNotification := resolve (closedNotification t2) err,
             resolve_calls := resolve_calls t2 @ [err]\<rparr>)"

text \<open>
  \<^verbatim>\<open>_closed\<close> up to its \<^verbatim>\<open>await\<close>. With no error and a socket it sends the
  acknowledgment and is suspended until the write's callback; a \<^verbatim>\<open>send\<close> that throws
  is caught, and so is a rejection later. Otherwise it goes on at once. The parameter
  \<^verbatim>\<open>internal\<close> is not read by the source.
\<close>

definition private_closed :: "cause \<Rightarrow> bool \<Rightarrow> transport \<Rightarrow> transport" where
  "private_closed err internal t =
     (if \<not> connected t then t
      else if done_flag t then t
      else if err = None \<and> socket t \<noteq> None then
        (case send (TextEncoder_encode (''+OK'' @ [CHR 0x0D, CHR 0x0A])) Shutdown t of
           (SendDeferred, t') \<Rightarrow> t'
         | (SendResolved, t') \<Rightarrow> closed_finish err t'
         | (SendThrows e, t') \<Rightarrow> closed_finish err t')
      else closed_finish err t)"

definition close :: "cause \<Rightarrow> transport \<Rightarrow> transport" where
  "close err t = private_closed err False t"

definition disconnect :: "transport \<Rightarrow> transport" where
  "disconnect t = private_closed None True t"

text \<open>
  The callback of the oldest write still open. For a caller of \<^verbatim>\<open>send\<close> the promise
  it holds settles. For a suspended \<^verbatim>\<open>_closed\<close> the \<^verbatim>\<open>await\<close> returns or throws into the
  \<^verbatim>\<open>catch\<close>, which only logs, and the call goes on with its own \<^verbatim>\<open>err\<close>, which is
  \<^verbatim>\<open>undefined\<close> since it chose to send.
\<close>

definition write_callback :: "cause \<Rightarrow> transport \<Rightarrow> transport" where
  "write_callback r t =
     (case pending t of
        [] \<Rightarrow> t
      | Caller # ws \<Rightarrow> t\<lparr>pending := ws\<rparr>
      | Shutdown # ws \<Rightarrow> closed_finish None (t\<lparr>pending := ws\<rparr>))"

subsection \<open>The handshake\<close>

definition removeAllListeners :: "transport \<Rightarrow> transport" where
  "removeAllListeners t = t\<lparr>listeners := NoListeners\<rparr>"

definition setupHandlers :: "transport \<Rightarrow> transport" where
  "setupHandlers t = t\<lparr>listeners := PumpListeners, captured := None\<rparr>"

definition dial :: "string \<times> nat \<Rightarrow> transport \<Rightarrow> transport" where
  "dial hp t = t\<lparr>dialed := Some hp, listeners := DialListeners, captured := None,
                  noDelay := True\<rparr>"

definition peekInfo :: "transport \<Rightarrow> transport" where
  "peekInfo t = t\<lparr>listeners := PeekListeners, captured := None\<rparr>"

definition startTLS :: "ConnectionOptions \<Rightarrow> transport \<Rightarrow> transport" where
  "startTLS opts t =
     t\<lparr>tlsOpts := Some (case tls opts of TlsObject kvs \<Rightarrow> kvs
                         | TlsUndefined \<Rightarrow> [] | TlsBoolean b \<Rightarrow> []),
       listeners := TLSListeners, captured := None\<rparr>"

text \<open>
  The data listener of \<^verbatim>\<open>peekInfo\<close>. It keeps the chunk, and once the chunks so far
  hold a protocol message (a string that is not empty) it settles the promise of
  \<^verbatim>\<open>peekInfo\<close> and removes the listeners: \<open>None\<close> is "not yet".
\<close>

definition peekInfo_data :: "ext \<Rightarrow> frame \<Rightarrow> transport \<Rightarrow> (error + info) option \<times> transport" where
  "peekInfo_data X frame t =
     (let t1 = t\<lparr>yields := yields t @ [frame]\<rparr> in
      case extractProtocolMessage X (DataBuffer_concat (yields t1)) of
        None \<Rightarrow> (None, t1)
      | Some pm \<Rightarrow>
          if pm = [] then (None, t1)
          else (case INFO_exec X pm of
                  None \<Rightarrow> (Some (Inl (Error None ''unexpected response from server'')),
                            removeAllListeners t1)
                | Some m1 \<Rightarrow> (Some (JSON_parse X m1), removeAllListeners t1)))"

text \<open>
  The \<^verbatim>\<open>catch\<close> of \<^verbatim>\<open>connect\<close>. It reads the property \<^verbatim>\<open>code\<close> of what was thrown, by
  destructuring: of \<^verbatim>\<open>undefined\<close> that is a \<^verbatim>\<open>TypeError\<close>, thrown inside the \<^verbatim>\<open>catch\<close>,
  and the promise of the \<^verbatim>\<open>async\<close> method rejects with it.
\<close>

definition connect_catch :: "cause \<Rightarrow> transport \<Rightarrow> transport" where
  "connect_catch err t =
     (case err of
        None \<Rightarrow> t\<lparr>stage := Failed (Some (TypeError ''cannot destructure undefined''))\<rparr>
      | Some e \<Rightarrow>
          t\<lparr>stage := Failed (Some (if code e = Some ''ECONNREFUSED''
                                    then errorForCode CONNECTION_REFUSED e else e))\<rparr>)"

text \<open>The last four statements of the \<^verbatim>\<open>try\<close> of \<^verbatim>\<open>connect\<close>.\<close>

definition connect_finish :: "transport \<Rightarrow> transport" where
  "connect_finish t =
     (let t1 = setupHandlers (t\<lparr>connected := True\<rparr>)
      in t1\<lparr>signal := resolve (signal t1) (), stage := Fulfilled\<rparr>)"

text \<open>\<^verbatim>\<open>connect\<close> up to its first \<^verbatim>\<open>await\<close>. The model follows one call of
  \<^verbatim>\<open>connect\<close> for a transport, as the lifecycle of the spec does; a later call is
  left out.\<close>

definition connect :: "string \<times> nat \<Rightarrow> ConnectionOptions \<Rightarrow> transport \<Rightarrow> transport" where
  "connect hp opts t =
     (case stage t of
        Idle \<Rightarrow> dial hp (t\<lparr>options := Some opts, stage := AwaitDial opts\<rparr>)
      | AwaitDial v \<Rightarrow> t | AwaitPeekInfo v \<Rightarrow> t | AwaitStartTLS \<Rightarrow> t
      | Fulfilled \<Rightarrow> t | Failed e \<Rightarrow> t)"

text \<open>\<^verbatim>\<open>connect\<close> after \<^verbatim>\<open>dial\<close> has resolved with the socket.\<close>

definition connect_after_dial :: "ConnectionOptions \<Rightarrow> transport \<Rightarrow> transport" where
  "connect_after_dial opts t = peekInfo (t\<lparr>socket := Some Socket, stage := AwaitPeekInfo opts\<rparr>)"

text \<open>\<^verbatim>\<open>connect\<close> after \<^verbatim>\<open>peekInfo\<close> has resolved with the greeting.\<close>

definition connect_after_peek :: "ext \<Rightarrow> info \<Rightarrow> ConnectionOptions \<Rightarrow> transport \<Rightarrow> transport" where
  "connect_after_peek X greeting opts t =
     (case checkOptions X greeting opts of
        Some e \<Rightarrow> connect_catch (Some e) t
      | None \<Rightarrow>
          if tls_required greeting then startTLS opts (t\<lparr>stage := AwaitStartTLS\<rparr>)
          else connect_finish t)"

text \<open>\<^verbatim>\<open>connect\<close> after \<^verbatim>\<open>startTLS\<close> has resolved with the encrypted socket.\<close>

definition connect_after_tls :: "transport \<Rightarrow> transport" where
  "connect_after_tls t = connect_finish (t\<lparr>socket := Some TLSSocket\<rparr>)"

subsection \<open>Socket callbacks\<close>

text \<open>The callback of \<^verbatim>\<open>createConnection\<close>: the connection stands.\<close>

definition on_connect :: "transport \<Rightarrow> transport" where
  "on_connect t =
     (case listeners t of
        DialListeners \<Rightarrow>
          (case stage t of
             AwaitDial opts \<Rightarrow> connect_after_dial opts (removeAllListeners t)
           | Idle \<Rightarrow> t | AwaitPeekInfo v \<Rightarrow> t | AwaitStartTLS \<Rightarrow> t
           | Fulfilled \<Rightarrow> t | Failed e \<Rightarrow> t)
      | NoListeners \<Rightarrow> t | PeekListeners \<Rightarrow> t | TLSListeners \<Rightarrow> t | PumpListeners \<Rightarrow> t)"

text \<open>The callback of \<^verbatim>\<open>tlsConnect\<close>: the encrypted session stands.\<close>

definition on_secure :: "transport \<Rightarrow> transport" where
  "on_secure t =
     (case listeners t of
        TLSListeners \<Rightarrow>
          (case stage t of
             AwaitStartTLS \<Rightarrow> connect_after_tls (removeAllListeners t)
           | Idle \<Rightarrow> t | AwaitDial v \<Rightarrow> t | AwaitPeekInfo v \<Rightarrow> t
           | Fulfilled \<Rightarrow> t | Failed e \<Rightarrow> t)
      | NoListeners \<Rightarrow> t | DialListeners \<Rightarrow> t | PeekListeners \<Rightarrow> t | PumpListeners \<Rightarrow> t)"

text \<open>A \<^verbatim>\<open>data\<close> event: the listener of \<^verbatim>\<open>peekInfo\<close> or the one of \<^verbatim>\<open>setupHandlers\<close>.\<close>

definition on_data :: "ext \<Rightarrow> frame \<Rightarrow> transport \<Rightarrow> transport" where
  "on_data X frame t =
     (case listeners t of
        PeekListeners \<Rightarrow>
          (case stage t of
             AwaitPeekInfo opts \<Rightarrow>
               (case peekInfo_data X frame t of
                  (None, t') \<Rightarrow> t'
                | (Some (Inl e), t') \<Rightarrow> connect_catch (Some e) t'
                | (Some (Inr greeting), t') \<Rightarrow> connect_after_peek X greeting opts t')
           | Idle \<Rightarrow> t | AwaitDial v \<Rightarrow> t | AwaitStartTLS \<Rightarrow> t
           | Fulfilled \<Rightarrow> t | Failed e \<Rightarrow> t)
      | PumpListeners \<Rightarrow> t\<lparr>yields := yields t @ [frame], signal := resolve (signal t) ()\<rparr>
      | NoListeners \<Rightarrow> t | DialListeners \<Rightarrow> t | TLSListeners \<Rightarrow> t)"

text \<open>An \<^verbatim>\<open>error\<close> event: every group only keeps the error.\<close>

definition on_error :: "error \<Rightarrow> transport \<Rightarrow> transport" where
  "on_error e t =
     (case listeners t of
        NoListeners \<Rightarrow> t
      | DialListeners \<Rightarrow> t\<lparr>captured := Some e\<rparr>
      | PeekListeners \<Rightarrow> t\<lparr>captured := Some e\<rparr>
      | TLSListeners \<Rightarrow> t\<lparr>captured := Some e\<rparr>
      | PumpListeners \<Rightarrow> t\<lparr>captured := Some e\<rparr>)"

text \<open>
  A \<^verbatim>\<open>close\<close> event. During the handshake the promise awaited rejects with the error
  kept, and \<^verbatim>\<open>connect\<close> goes to its \<^verbatim>\<open>catch\<close>; afterwards the socket is forgotten
  and the shutdown coordinator is called with the error kept.
\<close>

definition on_close :: "transport \<Rightarrow> transport" where
  "on_close t =
     (case listeners t of
        NoListeners \<Rightarrow> t
      | DialListeners \<Rightarrow> connect_catch (captured t) (removeAllListeners t)
      | PeekListeners \<Rightarrow> connect_catch (captured t) (removeAllListeners t)
      | TLSListeners \<Rightarrow> connect_catch (captured t) (removeAllListeners t)
      | PumpListeners \<Rightarrow> private_closed (captured t) False (t\<lparr>socket := None\<rparr>))"

subsection \<open>The frame consumer\<close>

text \<open>
  The inner loop of \<^verbatim>\<open>iterate\<close> from its test on: the head of the queue is yielded, or
  with the queue empty the generator returns if the transport is done and otherwise
  waits on a new signal. A \<^verbatim>\<open>Uint8Array\<close> is never falsy, so every frame taken is
  yielded.
\<close>

definition drain :: "transport \<Rightarrow> transport" where
  "drain t =
     (case yields t of
        f # fs \<Rightarrow> t\<lparr>yields := fs, observed := observed t @ [f], iter := AtYield\<rparr>
      | [] \<Rightarrow> if done_flag t then t\<lparr>iter := Completed\<rparr>
              else t\<lparr>signal := Pending, iter := AwaitSignal\<rparr>)"

text \<open>The generator runs on to its next suspension, if it can.\<close>

definition iterate :: "transport \<Rightarrow> transport" where
  "iterate t =
     (case iter t of
        Completed \<Rightarrow> t
      | AtYield \<Rightarrow> drain t
      | AwaitSignal \<Rightarrow>
          (case signal t of
             Resolved u \<Rightarrow> drain t
           | Pending \<Rightarrow> t
           | Rejected e \<Rightarrow> t))"

subsection \<open>Events and runs\<close>

datatype event =
    Connect "string \<times> nat" ConnectionOptions
  | Close cause
  | Disconnect
  | Send frame
  | Next
  | SockConnect
  | SockSecure
  | SockData frame
  | SockError error
  | SockClose
  | WriteDone cause

fun step :: "ext \<Rightarrow> event \<Rightarrow> transport \<Rightarrow> transport" where
  "step X (Connect hp opts) t = connect hp opts t"
| "step X (Close err) t = close err t"
| "step X Disconnect t = disconnect t"
| "step X (Send frame) t = snd (send frame Caller t)"
| "step X Next t = iterate t"
| "step X SockConnect t = on_connect t"
| "step X SockSecure t = on_secure t"
| "step X (SockData frame) t = on_data X frame t"
| "step X (SockError e) t = on_error e t"
| "step X SockClose t = on_close t"
| "step X (WriteDone r) t = write_callback r t"

fun run :: "ext \<Rightarrow> event list \<Rightarrow> transport \<Rightarrow> transport" where
  "run X [] t = t"
| "run X (e # es) t = run X es (step X e t)"

subsection \<open>Collaborators to run the model with\<close>

text \<open>
  Modelled from the spec: \<^verbatim>\<open>extractProtocolMessage\<close>, the pattern \<^verbatim>\<open>INFO\<close> and
  \<^verbatim>\<open>checkOptions\<close> are code of \<^verbatim>\<open>nats-base-client\<close>, not of the source at hand. The
  extractor is "given accumulated bytes, returns the first complete protocol line if
  present, else nothing", a line ending with carriage return and line feed. The
  greeting is the word INFO, a space and a payload; of the payload only the member
  \<^verbatim>\<open>tls_required\<close> matters here, so the parser below knows two payloads and takes
  any other for malformed. The checker accepts every greeting but one that asks for
  TLS when the caller has set \<^verbatim>\<open>tls\<close> to false.
\<close>

fun protoLen :: "frame \<Rightarrow> nat option" where
  "protoLen (a # b # bs) =
     (if a = 13 \<and> b = 10 then Some 2 else map_option Suc (protoLen (b # bs)))"
| "protoLen bs = None"

definition TextDecoder_decode :: "frame \<Rightarrow> string" where
  "TextDecoder_decode bs = map (\<lambda>b. char_of (unat b)) bs"

definition first_line :: "frame \<Rightarrow> string option" where
  "first_line bs = map_option (\<lambda>n. TextDecoder_decode (take n bs)) (protoLen bs)"

definition info_group :: "string \<Rightarrow> string option" where
  "info_group pm =
     (if take 5 pm = ''INFO '' \<and> 7 < length pm
      then Some (take (length pm - 7) (drop 5 pm)) else None)"

definition tls_payload :: string where
  "tls_payload = ''{'' @ [CHR 0x22] @ ''tls_required'' @ [CHR 0x22] @ '':true}''"

definition parse_payload :: "string \<Rightarrow> error + info" where
  "parse_payload s =
     (if s = ''{}'' then Inr \<lparr>tls_required = False, json = s\<rparr>
      else if s = tls_payload then Inr \<lparr>tls_required = True, json = s\<rparr>
      else Inl (Error None ''SyntaxError''))"

definition check_tls :: "info \<Rightarrow> ConnectionOptions \<Rightarrow> error option" where
  "check_tls greeting opts =
     (if tls_required greeting \<and> tls opts = TlsBoolean False
      then Some (NatsError ''SERVER_OPTION_NA'' None) else None)"

definition base_client :: ext where
  "base_client = \<lparr> extractProtocolMessage = first_line, INFO_exec = info_group,
      JSON_parse = parse_payload, checkOptions = check_tls \<rparr>"

text \<open>Inputs of the examples: a target, options, two greetings, a payload frame.\<close>

definition hp0 :: "string \<times> nat" where
  "hp0 = (''localhost'', 4222)"

definition opts0 :: ConnectionOptions where
  "opts0 = \<lparr> debug = False, tls = TlsUndefined \<rparr>"

definition CRLF :: string where
  "CRLF = [CHR 0x0D, CHR 0x0A]"

definition plain_greeting :: frame where
  "plain_greeting = TextEncoder_encode (''INFO {}'' @ CRLF)"

definition tls_greeting :: frame where
  "tls_greeting = TextEncoder_encode (''INFO '' @ tls_payload @ CRLF)"

definition ping :: frame where
  "ping = TextEncoder_encode (''PING'' @ CRLF)"

definition handshake :: "event list" where
  "handshake = [Connect hp0 opts0, SockConnect, SockData plain_greeting]"

section \<open>Invariants and schedules\<close>

text \<open>
  A group of listeners is only attached while \<^verbatim>\<open>connect\<close> waits for it, or, for the
  group of \<^verbatim>\<open>setupHandlers\<close>, once \<^verbatim>\<open>connect\<close> has returned.
\<close>

fun attached :: "handlers \<Rightarrow> stage \<Rightarrow> bool" where
  "attached NoListeners s = True"
| "attached DialListeners (AwaitDial v) = True"
| "attached PeekListeners (AwaitPeekInfo v) = True"
| "attached TLSListeners AwaitStartTLS = True"
| "attached PumpListeners Fulfilled = True"
| "attached l s = False"

text \<open>What a promise holds after the given calls of its \<^verbatim>\<open>resolve\<close>.\<close>

fun settled :: "cause list \<Rightarrow> cause promise" where
  "settled [] = Pending"
| "settled (c # cs) = Resolved c"

text \<open>
  The lifecycle invariant: the listeners fit the stage of \<^verbatim>\<open>connect\<close>; \<^verbatim>\<open>connected\<close>
  says that \<^verbatim>\<open>connect\<close> has returned; \<^verbatim>\<open>done\<close> needs \<^verbatim>\<open>connected\<close>; the closure
  notification holds the cause of the first call of its \<^verbatim>\<open>resolve\<close>, and there is no
  such call before \<^verbatim>\<open>done\<close>; a suspended shutdown needs \<^verbatim>\<open>connected\<close>; the socket
  is the encrypted one only after \<^verbatim>\<open>connect\<close> has returned from \<^verbatim>\<open>startTLS\<close>; the
  options are there once \<^verbatim>\<open>connect\<close> has been called; and no socket is destroyed
  before \<^verbatim>\<open>done\<close>.
\<close>

definition lifecycle :: "transport \<Rightarrow> bool" where
  "lifecycle t =
     (attached (listeners t) (stage t)
      \<and> (connected t \<longrightarrow> stage t = Fulfilled)
      \<and> (stage t = Fulfilled \<longrightarrow> connected t)
      \<and> (done_flag t \<longrightarrow> connected t)
      \<and> closedNotification t = settled (resolve_calls t)
      \<and> (resolve_calls t \<noteq> [] \<longrightarrow> done_flag t)
      \<and> (Shutdown \<in> set (pending t) \<longrightarrow> connected t)
      \<and> (socket t = Some TLSSocket \<longrightarrow> stage t = Fulfilled \<and> tlsOpts t \<noteq> None)
      \<and> (stage t = AwaitStartTLS \<longrightarrow> tlsOpts t \<noteq> None \<and> listeners t = TLSListeners)
      \<and> (stage t \<noteq> Idle \<longrightarrow> options t \<noteq> None)
      \<and> (destroyed t \<longrightarrow> done_flag t))"

text \<open>The line extractor finds no protocol message in the bytes: \<^verbatim>\<open>if (pm)\<close> fails.\<close>

definition no_message :: "ext \<Rightarrow> frame \<Rightarrow> bool" where
  "no_message X bs =
     (extractProtocolMessage X bs = None \<or> extractProtocolMessage X bs = Some [])"



text \<open>The consumer is not stuck before a frame: the queue is empty, or the generator
  stands in its inner loop, or it waits on a signal that is resolved.\<close>

definition can_drain :: "transport \<Rightarrow> bool" where
  "can_drain t =
     (yields t = [] \<or> iter t = AtYield \<or> (iter t = AwaitSignal \<and> signal t = Resolved ()))"



subsection \<open>Further inputs of the examples\<close>

text \<open>Errors, options and frames.\<close>

definition boom :: error where
  "boom = Error (Some ''EPIPE'') ''write EPIPE''"

definition refused :: error where
  "refused = Error (Some ''ECONNREFUSED'') ''connect ECONNREFUSED''"

definition no_tls :: ConnectionOptions where
  "no_tls = \<lparr> debug = False, tls = TlsBoolean False \<rparr>"

definition bad_greeting :: frame where
  "bad_greeting = TextEncoder_encode (''INFO {x}'' @ CRLF)"


text \<open>A greeting that arrives in three chunks, the third with a further line after it.\<close>

definition split_greeting :: "frame list" where
  "split_greeting = [TextEncoder_encode ''INF'', TextEncoder_encode ''O {}'']"

definition greeting_end :: frame where
  "greeting_end = TextEncoder_encode (CRLF @ ''PING'' @ CRLF)"

text \<open>A greeting with a further line after it in the same chunk.\<close>

definition greeting_and_ping :: frame where
  "greeting_and_ping = TextEncoder_encode (''INFO {}'' @ CRLF @ ''PING'' @ CRLF)"

section \<open>The lifecycle invariant along every run\<close>

lemma lifecycle_init: "lifecycle init"
  by (simp add: lifecycle_def init_def)

lemma lifecycle_closed_finish:
  "lifecycle t \<Longrightarrow> connected t \<Longrightarrow> lifecycle (closed_finish err t)"
  by (cases "resolve_calls t"; cases "socket t")
     (auto simp: lifecycle_def closed_finish_def resolve_def Let_def)

lemma lifecycle_send: "lifecycle t \<Longrightarrow> who = Shutdown \<longrightarrow> connected t \<Longrightarrow> lifecycle (snd (send frame who t))"
  by (auto simp: lifecycle_def send_def split: option.splits handlers.splits)

lemma connected_send: "connected (snd (send frame who t)) = connected t"
  by (auto simp: send_def split: option.splits)

lemma lifecycle_private_closed: "lifecycle t \<Longrightarrow> lifecycle (private_closed err internal t)"
  unfolding private_closed_def
  using lifecycle_send [of t Shutdown "TextEncoder_encode (''+OK'' @ [CHR 0x0D, CHR 0x0A])"]
        connected_send [of "TextEncoder_encode (''+OK'' @ [CHR 0x0D, CHR 0x0A])" Shutdown t]
  by (auto split: prod.splits send_result.splits intro: lifecycle_closed_finish)

lemma lifecycle_write_callback: "lifecycle t \<Longrightarrow> lifecycle (write_callback r t)"
proof -
  assume inv: "lifecycle t"
  have pop: "lifecycle (t\<lparr>pending := ws\<rparr>)" if "pending t = w # ws" for w ws
    using inv that by (auto simp: lifecycle_def)
  have conn: "connected t" if "pending t = Shutdown # ws" for ws
    using inv that by (auto simp: lifecycle_def)
  show ?thesis
    using inv pop conn
    by (auto simp: write_callback_def split: list.splits waiter.splits
             intro!: lifecycle_closed_finish)
qed

lemma lifecycle_connect_catch:
  "lifecycle t \<Longrightarrow> \<not> connected t \<Longrightarrow> listeners t = NoListeners \<Longrightarrow> socket t \<noteq> Some TLSSocket
     \<Longrightarrow> stage t \<noteq> Idle \<Longrightarrow> lifecycle (connect_catch err t)"
  by (auto simp: lifecycle_def connect_catch_def split: option.splits)

lemma lifecycle_connect:
  assumes "lifecycle t"
  shows "lifecycle (connect hp opts t)"
proof (cases "stage t")
  case Idle
  then show ?thesis
    using assms by (auto simp: connect_def dial_def lifecycle_def)
qed (use assms in \<open>simp_all add: connect_def\<close>)

lemma lifecycle_on_connect:
  assumes "lifecycle t"
  shows "lifecycle (on_connect t)"
proof (cases "listeners t")
  case DialListeners
  then obtain opts where "stage t = AwaitDial opts"
    using assms by (cases "stage t") (simp_all add: lifecycle_def)
  then show ?thesis
    using assms DialListeners
    by (auto simp: on_connect_def connect_after_dial_def peekInfo_def removeAllListeners_def
          lifecycle_def)
qed (use assms in \<open>simp_all add: on_connect_def\<close>)

lemma lifecycle_on_secure:
  assumes "lifecycle t"
  shows "lifecycle (on_secure t)"
proof (cases "listeners t")
  case TLSListeners
  then have "stage t = AwaitStartTLS"
    using assms by (cases "stage t") (simp_all add: lifecycle_def)
  then show ?thesis
    using assms TLSListeners
    by (simp add: on_secure_def connect_after_tls_def connect_finish_def setupHandlers_def
          removeAllListeners_def lifecycle_def Let_def)
qed (use assms in \<open>simp_all add: on_secure_def\<close>)

lemma lifecycle_connect_after_peek:
  "lifecycle t \<Longrightarrow> \<not> connected t \<Longrightarrow> listeners t = NoListeners \<Longrightarrow> socket t \<noteq> Some TLSSocket
     \<Longrightarrow> stage t \<noteq> Idle \<Longrightarrow> lifecycle (connect_after_peek X greeting opts t)"
  unfolding connect_after_peek_def
  by (auto simp: lifecycle_connect_catch split: option.splits)
     (auto simp: lifecycle_def startTLS_def connect_finish_def setupHandlers_def Let_def)

lemma peekInfo_data_fields:
  "peekInfo_data X frame t = (r, t') \<Longrightarrow>
     stage t' = stage t \<and> connected t' = connected t \<and> done_flag t' = done_flag t \<and>
     closedNotification t' = closedNotification t \<and> pending t' = pending t \<and>
     resolve_calls t' = resolve_calls t \<and> options t' = options t \<and>
     destroyed t' = destroyed t \<and>
     socket t' = socket t \<and> tlsOpts t' = tlsOpts t \<and>
     (case r of None \<Rightarrow> listeners t' = listeners t | Some v \<Rightarrow> listeners t' = NoListeners)"
  by (auto simp: peekInfo_data_def removeAllListeners_def Let_def
           split: option.splits if_splits)

lemma lifecycle_on_data: "lifecycle t \<Longrightarrow> lifecycle (on_data X frame t)"
proof (cases "listeners t")
  case PeekListeners
  assume inv: "lifecycle t"
  show ?thesis
  proof (cases "stage t")
    case (AwaitPeekInfo opts)
    obtain r t' where p: "peekInfo_data X frame t = (r, t')"
      by (cases "peekInfo_data X frame t")
    note f = peekInfo_data_fields [OF p]
    have nc: "\<not> connected t'" "socket t' \<noteq> Some TLSSocket" "stage t' \<noteq> Idle"
      using inv f AwaitPeekInfo by (auto simp: lifecycle_def)
    have inv': "lifecycle t'"
      using inv f PeekListeners unfolding lifecycle_def
      by (cases r) (auto split: handlers.splits)
    show ?thesis
    proof (cases r)
      case None
      then show ?thesis
        using inv' p PeekListeners AwaitPeekInfo by (simp add: on_data_def)
    next
      case (Some v)
      then have nl: "listeners t' = NoListeners" using f by simp
      show ?thesis
        using Some p PeekListeners AwaitPeekInfo inv' nc nl
        by (cases v)
           (simp_all add: on_data_def lifecycle_connect_catch lifecycle_connect_after_peek)
    qed
  qed (use inv PeekListeners in \<open>simp_all add: on_data_def\<close>)
next
  case PumpListeners
  assume "lifecycle t"
  then show ?thesis using PumpListeners
    by (auto simp: on_data_def lifecycle_def)
qed (simp_all add: on_data_def)

lemma lifecycle_on_error:
  assumes "lifecycle t"
  shows "lifecycle (on_error e t)"
  using assms by (cases "listeners t") (simp_all add: on_error_def lifecycle_def)

lemma lifecycle_on_close:
  assumes "lifecycle t"
  shows "lifecycle (on_close t)"
proof (cases "listeners t")
  case PumpListeners
  have "lifecycle (t\<lparr>socket := None\<rparr>)"
    using assms by (simp add: lifecycle_def)
  then show ?thesis
    using PumpListeners by (simp add: on_close_def lifecycle_private_closed)
next
  case NoListeners
  then show ?thesis using assms by (simp add: on_close_def)
next
  case DialListeners
  then obtain opts where "stage t = AwaitDial opts"
    using assms by (cases "stage t") (simp_all add: lifecycle_def)
  then show ?thesis
    using assms DialListeners
    by (cases "captured t")
       (auto simp: on_close_def connect_catch_def removeAllListeners_def lifecycle_def)
next
  case PeekListeners
  then obtain opts where "stage t = AwaitPeekInfo opts"
    using assms by (cases "stage t") (simp_all add: lifecycle_def)
  then show ?thesis
    using assms PeekListeners
    by (cases "captured t")
       (auto simp: on_close_def connect_catch_def removeAllListeners_def lifecycle_def)
next
  case TLSListeners
  then have "stage t = AwaitStartTLS"
    using assms by (cases "stage t") (simp_all add: lifecycle_def)
  then show ?thesis
    using assms TLSListeners
    by (cases "captured t")
       (auto simp: on_close_def connect_catch_def removeAllListeners_def lifecycle_def)
qed

lemma lifecycle_drain:
  assumes "lifecycle t"
  shows "lifecycle (drain t)"
  using assms by (cases "yields t") (auto simp: drain_def lifecycle_def)

lemma lifecycle_iterate:
  assumes "lifecycle t"
  shows "lifecycle (iterate t)"
  using assms
  by (cases "iter t"; cases "signal t") (simp_all add: iterate_def lifecycle_drain)

lemma lifecycle_step: "lifecycle t \<Longrightarrow> lifecycle (step X e t)"
  by (cases e)
     (simp_all add: close_def disconnect_def lifecycle_connect lifecycle_private_closed
        lifecycle_send lifecycle_iterate lifecycle_on_connect lifecycle_on_secure
        lifecycle_on_data lifecycle_on_error lifecycle_on_close lifecycle_write_callback)

lemma lifecycle_run: "lifecycle t \<Longrightarrow> lifecycle (run X evs t)"
  by (induction evs arbitrary: t) (simp_all add: lifecycle_step)

lemma lifecycle_reachable: "lifecycle (run X evs init)"
  by (simp add: lifecycle_run lifecycle_init)


section \<open>Shutdown before a connection\<close>

lemma private_closed_unconnected: "\<not> connected t \<Longrightarrow> private_closed err internal t = t"
  by (simp add: private_closed_def)

text \<open>
  Claim C7. In every state a transport can reach, \<^verbatim>\<open>done\<close> implies \<^verbatim>\<open>connected\<close>, and
  \<^verbatim>\<open>connected\<close> is set only when \<^verbatim>\<open>connect\<close> has gone through the whole handshake and
  returned, never on a connect that failed. So while no connection has succeeded, the
  shutdown coordinator returns without changing the state, whether it is called
  directly, through \<^verbatim>\<open>close\<close> or through \<^verbatim>\<open>disconnect\<close>.
\<close>

theorem done_needs_connected:
  "(done_flag (run X evs init) \<longrightarrow> connected (run X evs init)) \<and>
   (connected (run X evs init) \<longrightarrow> stage (run X evs init) = Fulfilled) \<and>
   (\<not> connected (run X evs init) \<longrightarrow>
      private_closed err internal (run X evs init) = run X evs init \<and>
      step X (Close err) (run X evs init) = run X evs init \<and>
      step X Disconnect (run X evs init) = run X evs init)"
  using lifecycle_reachable [of X evs]
  by (simp add: lifecycle_def close_def disconnect_def private_closed_unconnected)

theorem done_needs_connected_witness:
  "done_flag (run base_client (handshake @ [Close (Some boom)]) init) \<and>
   connected (run base_client (handshake @ [Close (Some boom)]) init) \<and>
   \<not> connected (run base_client [Connect hp0 opts0, SockConnect, Close None] init) \<and>
   step base_client Disconnect (run base_client [Connect hp0 opts0, SockConnect] init)
     = run base_client [Connect hp0 opts0, SockConnect] init"
proof -
  have d: "done_flag (run base_client (handshake @ [Close (Some boom)]) init)"
    by code_simp
  have n: "\<not> connected (run base_client [Connect hp0 opts0, SockConnect] init)"
    by code_simp
  have n': "\<not> connected (run base_client [Connect hp0 opts0, SockConnect, Close None] init)"
    by code_simp
  show ?thesis
    using d n n'
      done_needs_connected [of base_client "handshake @ [Close (Some boom)]"]
      done_needs_connected [of base_client "[Connect hp0 opts0, SockConnect]" None True]
    by blast
qed

section \<open>The closure notification and the flag\<close>

text \<open>
  Claim C10. On every path the flag \<^verbatim>\<open>done\<close> is set before the closure notification
  is resolved: in every state a transport can reach, once \<^verbatim>\<open>closed()\<close> has resolved, or
  \<^verbatim>\<open>resolve\<close> has been called on it at all, \<^verbatim>\<open>isClosed\<close> is true.
\<close>

theorem resolved_needs_done:
  "(closed (run X evs init) = Resolved v \<longrightarrow> isClosed (run X evs init)) \<and>
   (resolve_calls (run X evs init) \<noteq> [] \<longrightarrow> isClosed (run X evs init))"
  using lifecycle_reachable [of X evs]
  by (cases "resolve_calls (run X evs init)") (simp_all add: lifecycle_def closed_def isClosed_def)

theorem resolved_needs_done_witness:
  "closed (run base_client (handshake @ [Close (Some boom)]) init) = Resolved (Some boom) \<and>
   isClosed (run base_client (handshake @ [Close (Some boom)]) init)"
proof -
  have "closed (run base_client (handshake @ [Close (Some boom)]) init) = Resolved (Some boom)"
    by code_simp
  then show ?thesis
    using resolved_needs_done [of base_client "handshake @ [Close (Some boom)]" "Some boom"]
    by blast
qed

section \<open>The encrypted socket\<close>

lemma socket_send: "socket (snd (send frame who t)) = socket t"
  by (cases "options t"; cases "socket t") (simp_all add: send_def)

lemma socket_closed_finish: "socket (closed_finish err t) = socket t"
  by (cases "socket t") (simp_all add: closed_finish_def Let_def)

lemma socket_private_closed: "socket (private_closed err internal t) = socket t"
proof -
  obtain r t' where s: "send (TextEncoder_encode (''+OK'' @ [CHR 0x0D, CHR 0x0A])) Shutdown t = (r, t')"
    by (cases "send (TextEncoder_encode (''+OK'' @ [CHR 0x0D, CHR 0x0A])) Shutdown t")
  then have "socket t' = socket t"
    using socket_send [of "TextEncoder_encode (''+OK'' @ [CHR 0x0D, CHR 0x0A])" Shutdown t] by simp
  then show ?thesis
    using s by (cases r) (simp_all add: private_closed_def socket_closed_finish)
qed

lemma socket_write_callback: "socket (write_callback r t) = socket t"
proof (cases "pending t")
  case (Cons w ws)
  then show ?thesis
    by (cases w) (simp_all add: write_callback_def socket_closed_finish)
qed (simp add: write_callback_def)

lemma socket_connect_catch: "socket (connect_catch err t) = socket t"
  by (cases err) (simp_all add: connect_catch_def)

lemma socket_on_data:
  "socket (on_data X frame t) = Some TLSSocket \<Longrightarrow> socket t = Some TLSSocket"
proof (cases "listeners t")
  case PeekListeners
  assume a: "socket (on_data X frame t) = Some TLSSocket"
  show ?thesis
  proof (cases "stage t")
    case (AwaitPeekInfo opts)
    obtain r t' where p: "peekInfo_data X frame t = (r, t')"
      by (cases "peekInfo_data X frame t")
    have s: "socket t' = socket t"
      using peekInfo_data_fields [OF p] by simp
    show ?thesis
    proof (cases r)
      case None
      then show ?thesis
        using a p s PeekListeners AwaitPeekInfo by (simp add: on_data_def)
    next
      case (Some v)
      then show ?thesis
        using a p s PeekListeners AwaitPeekInfo
        by (cases v)
           (auto simp: on_data_def socket_connect_catch connect_after_peek_def startTLS_def
              connect_finish_def setupHandlers_def Let_def split: option.splits if_splits)
    qed
  qed (use a PeekListeners in \<open>simp_all add: on_data_def\<close>)
qed (simp_all add: on_data_def)

lemma socket_on_connect:
  "socket (on_connect t) = Some TLSSocket \<Longrightarrow> socket t = Some TLSSocket"
  by (cases "listeners t"; cases "stage t")
     (simp_all add: on_connect_def connect_after_dial_def peekInfo_def)

lemma socket_on_error: "socket (on_error e t) = socket t"
  by (cases "listeners t") (simp_all add: on_error_def)

lemma socket_on_close:
  "socket (on_close t) = Some TLSSocket \<Longrightarrow> socket t = Some TLSSocket"
  by (cases "listeners t")
     (simp_all add: on_close_def socket_connect_catch socket_private_closed removeAllListeners_def)

lemma socket_iterate: "socket (iterate t) = socket t"
  by (cases "iter t"; cases "signal t"; cases "yields t") (simp_all add: iterate_def drain_def)

lemma socket_connect: "socket (connect hp opts t) = socket t"
  by (cases "stage t") (simp_all add: connect_def dial_def)

lemma encrypted_step:
  "socket (step X e t) = Some TLSSocket \<Longrightarrow> socket t = Some TLSSocket \<or> e = SockSecure"
  by (cases e)
     (auto simp: close_def disconnect_def socket_send socket_private_closed
        socket_write_callback socket_on_error socket_iterate socket_connect
        dest: socket_on_data socket_on_connect socket_on_close)

lemma encrypted_run:
  "socket (run X evs t) = Some TLSSocket \<Longrightarrow> socket t = Some TLSSocket \<or> SockSecure \<in> set evs"
proof (induction evs arbitrary: t)
  case Nil
  then show ?case by simp
next
  case (Cons e evs)
  from Cons.IH [of "step X e t"] Cons.prems
  have "socket (step X e t) = Some TLSSocket \<or> SockSecure \<in> set evs"
    by simp
  then show ?case
    using encrypted_step [of X e t] by auto
qed

text \<open>
  Claim C8. \<^verbatim>\<open>isEncrypted\<close> is true only when the callback of the TLS handshake has
  run, \<^verbatim>\<open>startTLS\<close> has been called and \<^verbatim>\<open>connect\<close> has put the encrypted session
  in place of the socket and returned. While \<^verbatim>\<open>connect\<close> still waits for the TLS
  handshake the answer is false, and the callback of the handshake is the step that
  makes it true.
\<close>

theorem encrypted_only_after_secure:
  "(isEncrypted (run X evs init) \<longrightarrow>
      SockSecure \<in> set evs \<and> stage (run X evs init) = Fulfilled \<and>
      tlsOpts (run X evs init) \<noteq> None) \<and>
   (stage (run X evs init) = AwaitStartTLS \<longrightarrow>
      \<not> isEncrypted (run X evs init) \<and> isEncrypted (step X SockSecure (run X evs init)))"
proof -
  have inv: "lifecycle (run X evs init)"
    by (rule lifecycle_reachable)
  have "SockSecure \<in> set evs" if "isEncrypted (run X evs init)"
    using that encrypted_run [of X evs init] by (simp add: isEncrypted_def init_def)
  moreover have "isEncrypted (step X SockSecure (run X evs init))"
    if "stage (run X evs init) = AwaitStartTLS"
    using that inv
    by (simp add: lifecycle_def isEncrypted_def on_secure_def connect_after_tls_def
          connect_finish_def setupHandlers_def removeAllListeners_def Let_def)
  ultimately show ?thesis
    using inv by (auto simp: lifecycle_def isEncrypted_def)
qed

theorem encrypted_only_after_secure_witness:
  "stage (run base_client [Connect hp0 opts0, SockConnect, SockData tls_greeting] init) = AwaitStartTLS \<and>
   \<not> isEncrypted (run base_client [Connect hp0 opts0, SockConnect, SockData tls_greeting] init) \<and>
   isEncrypted (run base_client [Connect hp0 opts0, SockConnect, SockData tls_greeting, SockSecure] init) \<and>
   SockSecure \<in> set [Connect hp0 opts0, SockConnect, SockData tls_greeting, SockSecure]"
proof -
  have a: "stage (run base_client [Connect hp0 opts0, SockConnect, SockData tls_greeting] init)
             = AwaitStartTLS"
    by code_simp
  have b: "isEncrypted (run base_client
             [Connect hp0 opts0, SockConnect, SockData tls_greeting, SockSecure] init)"
    by code_simp
  show ?thesis
    using a b
      encrypted_only_after_secure [of base_client "[Connect hp0 opts0, SockConnect, SockData tls_greeting]"]
      encrypted_only_after_secure [of base_client
        "[Connect hp0 opts0, SockConnect, SockData tls_greeting, SockSecure]"]
    by blast
qed

section \<open>Sending on a closed transport\<close>

text \<open>
  Claim C5. Once the transport is done, \<^verbatim>\<open>send\<close> of any frame resolves at once,
  writes nothing to the socket and leaves the state of the transport as it was.
\<close>

theorem send_after_close:
  "isClosed t \<Longrightarrow>
     send frame who t = (SendResolved, t) \<and> step X (Send frame) t = t \<and>
     written (step X (Send frame) t) = written t"
  by (simp add: send_def)

theorem send_after_close_witness:
  "isClosed (run base_client (handshake @ [Close (Some boom)]) init) \<and>
   send ping Caller (run base_client (handshake @ [Close (Some boom)]) init)
     = (SendResolved, run base_client (handshake @ [Close (Some boom)]) init)"
proof -
  have c: "isClosed (run base_client (handshake @ [Close (Some boom)]) init)"
    by code_simp
  show ?thesis
    using c send_after_close [OF c, of ping Caller] by simp
qed

section \<open>The clean shutdown\<close>

lemma encode_ok: "TextEncoder_encode (''+OK'' @ [CHR 0x0D, CHR 0x0A]) = [43, 79, 75, 13, 10]"
  by (simp add: TextEncoder_encode_def)

lemma private_closed_clean:
  assumes "connected t" "\<not> done_flag t" "socket t = Some s" "options t = Some opts"
  shows "private_closed None internal t =
           t\<lparr>written := written t @ [[43, 79, 75, 13, 10]], pending := pending t @ [Shutdown]\<rparr>"
  using assms by (simp add: private_closed_def send_def isClosed_def TextEncoder_encode_def)

lemma run_append: "run X (es @ fs) t = run X fs (run X es t)"
  by (induction es arbitrary: t) simp_all

lemma callbacks_of_callers:
  "Shutdown \<notin> set ws \<Longrightarrow> pending t = ws @ rest \<Longrightarrow> length rs \<le> length ws \<Longrightarrow>
     run X (map WriteDone rs) t = t\<lparr>pending := drop (length rs) ws @ rest\<rparr>"
proof (induction rs arbitrary: t ws)
  case Nil
  then show ?case by simp
next
  case (Cons r rs)
  then obtain w ws' where ws: "ws = w # ws'"
    by (cases ws) simp_all
  then have w: "w = Caller"
    using Cons.prems(1) by (cases w) simp_all
  have step: "write_callback r t = t\<lparr>pending := ws' @ rest\<rparr>"
    using Cons.prems(2) ws w by (simp add: write_callback_def)
  have "run X (map WriteDone rs) (t\<lparr>pending := ws' @ rest\<rparr>) =
          t\<lparr>pending := ws' @ rest\<rparr>\<lparr>pending := drop (length rs) ws' @ rest\<rparr>"
    using Cons.prems ws by (intro Cons.IH) simp_all
  then show ?case
    using step ws by simp
qed

lemma closed_finish_first:
  "socket t = Some s \<Longrightarrow> closedNotification t = Pending \<Longrightarrow> resolve_calls t = [] \<Longrightarrow>
     done_flag (closed_finish err t) \<and> destroyed (closed_finish err t) \<and>
     closedNotification (closed_finish err t) = Resolved err \<and>
     resolve_calls (closed_finish err t) = [err]"
  by (simp add: closed_finish_def resolve_def Let_def)

text \<open>
  Claim C9. The first effective shutdown call: a reachable state that is connected,
  not done, has a socket, and has no other shutdown call suspended. Called with no
  error, the coordinator writes the five bytes of \<^verbatim>\<open>+OK\<close>, carriage return, line
  feed, once, and changes nothing else. It then waits for that write: while only
  callbacks of writes issued earlier run, none or all of them, the socket is not
  destroyed, its listeners stay, \<^verbatim>\<open>done\<close> is not set and the closure notification
  is not resolved. With the callback of the acknowledgment itself, whatever it and
  the earlier ones report, the socket is destroyed, \<^verbatim>\<open>done\<close> is set and the closure
  notification is resolved, once, with no error.
\<close>

theorem final_acknowledgment:
  "connected (run X evs init) \<and> \<not> done_flag (run X evs init) \<and>
   socket (run X evs init) \<noteq> None \<and> Shutdown \<notin> set (pending (run X evs init)) \<longrightarrow>
     private_closed None internal (run X evs init) =
       (run X evs init)\<lparr>written := written (run X evs init) @ [[43, 79, 75, 13, 10]],
                          pending := pending (run X evs init) @ [Shutdown]\<rparr> \<and>
     TextEncoder_encode (''+OK'' @ [CHR 0x0D, CHR 0x0A]) = [43, 79, 75, 13, 10] \<and>
     (length early \<le> length (pending (run X evs init)) \<longrightarrow>
        \<not> destroyed (run X (map WriteDone early) (private_closed None internal (run X evs init))) \<and>
        \<not> done_flag (run X (map WriteDone early) (private_closed None internal (run X evs init))) \<and>
        listeners (run X (map WriteDone early) (private_closed None internal (run X evs init)))
          = listeners (run X evs init) \<and>
        resolve_calls (run X (map WriteDone early) (private_closed None internal (run X evs init)))
          = [] \<and>
        closedNotification (run X (map WriteDone early) (private_closed None internal (run X evs init)))
          = Pending) \<and>
     (length rs = Suc (length (pending (run X evs init))) \<longrightarrow>
        done_flag (run X (map WriteDone rs) (private_closed None internal (run X evs init))) \<and>
        destroyed (run X (map WriteDone rs) (private_closed None internal (run X evs init))) \<and>
        resolve_calls (run X (map WriteDone rs) (private_closed None internal (run X evs init)))
          = [None] \<and>
        closedNotification (run X (map WriteDone rs) (private_closed None internal (run X evs init)))
          = Resolved None)"
proof (intro impI, elim conjE)
  let ?t = "run X evs init"
  let ?c = "private_closed None internal ?t"
  assume c: "connected ?t" and d: "\<not> done_flag ?t" and s: "socket ?t \<noteq> None"
    and first: "Shutdown \<notin> set (pending ?t)"
  have inv: "lifecycle ?t"
    by (rule lifecycle_reachable)
  obtain sk opts where so: "socket ?t = Some sk" "options ?t = Some opts"
    using s c inv by (auto simp: lifecycle_def)
  have fresh: "\<not> destroyed ?t" "resolve_calls ?t = []" "closedNotification ?t = Pending"
    using d inv by (auto simp: lifecycle_def)
  note eq = private_closed_clean [OF c d so, of internal]
  have p: "pending ?c = pending ?t @ [Shutdown]"
    by (simp add: eq)
  have wait: "run X (map WriteDone es) ?c = ?c\<lparr>pending := drop (length es) (pending ?t) @ [Shutdown]\<rparr>"
    if "length es \<le> length (pending ?t)" for es
    using first p that by (rule callbacks_of_callers)
  have early: "\<not> destroyed (run X (map WriteDone early) ?c) \<and>
        \<not> done_flag (run X (map WriteDone early) ?c) \<and>
        listeners (run X (map WriteDone early) ?c) = listeners ?t \<and>
        resolve_calls (run X (map WriteDone early) ?c) = [] \<and>
        closedNotification (run X (map WriteDone early) ?c) = Pending"
    if "length early \<le> length (pending ?t)"
    using wait [OF that] fresh d by (simp add: eq)
  have fin: "done_flag (run X (map WriteDone rs) ?c) \<and> destroyed (run X (map WriteDone rs) ?c) \<and>
        resolve_calls (run X (map WriteDone rs) ?c) = [None] \<and>
        closedNotification (run X (map WriteDone rs) ?c) = Resolved None"
    if len: "length rs = Suc (length (pending ?t))"
  proof -
    obtain es r where rs: "rs = es @ [r]"
      using len by (cases rs rule: rev_cases) simp_all
    then have les: "length es = length (pending ?t)"
      using len by simp
    have "run X (map WriteDone rs) ?c = write_callback r (run X (map WriteDone es) ?c)"
      by (simp add: rs run_append)
    also have "run X (map WriteDone es) ?c = ?c\<lparr>pending := [Shutdown]\<rparr>"
      using wait [of es] les by simp
    also have "write_callback r (?c\<lparr>pending := [Shutdown]\<rparr>) =
                 closed_finish None (?c\<lparr>pending := []\<rparr>)"
      by (simp add: write_callback_def)
    finally have "run X (map WriteDone rs) ?c = closed_finish None (?c\<lparr>pending := []\<rparr>)" .
    moreover have "socket (?c\<lparr>pending := []\<rparr>) = Some sk"
      "closedNotification (?c\<lparr>pending := []\<rparr>) = Pending" "resolve_calls (?c\<lparr>pending := []\<rparr>) = []"
      using so fresh by (simp_all add: eq)
    ultimately show ?thesis
      using closed_finish_first [of "?c\<lparr>pending := []\<rparr>" sk None] by simp
  qed
  show "?c = ?t\<lparr>written := written ?t @ [[43, 79, 75, 13, 10]], pending := pending ?t @ [Shutdown]\<rparr> \<and>
     TextEncoder_encode (''+OK'' @ [CHR 0x0D, CHR 0x0A]) = [43, 79, 75, 13, 10] \<and>
     (length early \<le> length (pending ?t) \<longrightarrow>
        \<not> destroyed (run X (map WriteDone early) ?c) \<and>
        \<not> done_flag (run X (map WriteDone early) ?c) \<and>
        listeners (run X (map WriteDone early) ?c) = listeners ?t \<and>
        resolve_calls (run X (map WriteDone early) ?c) = [] \<and>
        closedNotification (run X (map WriteDone early) ?c) = Pending) \<and>
     (length rs = Suc (length (pending ?t)) \<longrightarrow>
        done_flag (run X (map WriteDone rs) ?c) \<and> destroyed (run X (map WriteDone rs) ?c) \<and>
        resolve_calls (run X (map WriteDone rs) ?c) = [None] \<and>
        closedNotification (run X (map WriteDone rs) ?c) = Resolved None)"
    using early fin eq encode_ok by blast
qed


theorem final_acknowledgment_witness:
  "connected (run base_client (handshake @ [Send ping]) init) \<and>
   pending (run base_client (handshake @ [Send ping]) init) = [Caller] \<and>
   written (private_closed None False (run base_client (handshake @ [Send ping]) init))
     = [ping, [43, 79, 75, 13, 10]] \<and>
   \<not> destroyed (run base_client (map WriteDone [None])
     (private_closed None False (run base_client (handshake @ [Send ping]) init))) \<and>
   \<not> done_flag (run base_client (map WriteDone [None])
     (private_closed None False (run base_client (handshake @ [Send ping]) init))) \<and>
   done_flag (run base_client (map WriteDone [None, Some boom])
     (private_closed None False (run base_client (handshake @ [Send ping]) init))) \<and>
   destroyed (run base_client (map WriteDone [None, Some boom])
     (private_closed None False (run base_client (handshake @ [Send ping]) init))) \<and>
   closedNotification (run base_client (map WriteDone [None, Some boom])
     (private_closed None False (run base_client (handshake @ [Send ping]) init))) = Resolved None"
proof -
  let ?s = "run base_client (handshake @ [Send ping]) init"
  have a: "connected ?s" "\<not> done_flag ?s" "socket ?s \<noteq> None"
    by code_simp+
  have b: "written ?s = [ping]" "pending ?s = [Caller]"
    by code_simp+
  have f: "Shutdown \<notin> set (pending ?s)"
    using b by simp
  have len: "length [None :: cause] \<le> length (pending ?s)"
            "length [None, Some boom] = Suc (length (pending ?s))"
    using b by simp_all
  note th = final_acknowledgment [of base_client "handshake @ [Send ping]" False "[None]"
              "[None, Some boom]"]
  have eq: "private_closed None False ?s =
              ?s\<lparr>written := written ?s @ [[43, 79, 75, 13, 10]], pending := pending ?s @ [Shutdown]\<rparr>"
    using th a f by blast
  have w: "written (private_closed None False ?s) = [ping, [43, 79, 75, 13, 10]]"
    by (simp add: eq b)
  show ?thesis
    using th a b f len w by blast
qed

section \<open>The errors of connect\<close>

text \<open>
  Claim C3. Whatever error object \<^verbatim>\<open>connect\<close> catches, on each of its paths: the error
  kept before the socket closed during the dial, the greeting read or the TLS
  handshake; the error thrown while the greeting is parsed; the error thrown by the
  option checker. If its \<^verbatim>\<open>code\<close> is \<^verbatim>\<open>ECONNREFUSED\<close>, \<^verbatim>\<open>connect\<close> rejects with a
  \<^verbatim>\<open>CONNECTION_REFUSED\<close> error that wraps it; otherwise it rejects with the error itself.
\<close>

theorem connect_rejection:
  "(let rejection = (\<lambda>e. if code e = Some ''ECONNREFUSED''
                          then NatsError ''CONNECTION_REFUSED'' (Some e) else e)
    in (listeners t \<noteq> NoListeners \<and> listeners t \<noteq> PumpListeners \<and> captured t = Some e \<longrightarrow>
          stage (step X SockClose t) = Failed (Some (rejection e))) \<and>
       (listeners t = PeekListeners \<and> stage t = AwaitPeekInfo opts \<and>
        fst (peekInfo_data X frame t) = Some (Inl e) \<longrightarrow>
          stage (step X (SockData frame) t) = Failed (Some (rejection e))) \<and>
       (listeners t = PeekListeners \<and> stage t = AwaitPeekInfo opts \<and>
        fst (peekInfo_data X frame t) = Some (Inr greeting) \<and>
        checkOptions X greeting opts = Some e \<longrightarrow>
          stage (step X (SockData frame) t) = Failed (Some (rejection e))))"
proof -
  have close: "stage (step X SockClose t) = stage (connect_catch (Some e) t)"
    if "listeners t \<noteq> NoListeners" "listeners t \<noteq> PumpListeners" "captured t = Some e"
    using that
    by (cases "listeners t") (simp_all add: on_close_def connect_catch_def removeAllListeners_def)
  have thrown: "stage (step X (SockData frame) t) = stage (connect_catch (Some e) t)"
    if "listeners t = PeekListeners" "stage t = AwaitPeekInfo opts"
       "fst (peekInfo_data X frame t) = Some (Inl e)"
    using that
    by (cases "peekInfo_data X frame t") (simp add: on_data_def connect_catch_def)
  have checked: "stage (step X (SockData frame) t) = stage (connect_catch (Some e) t)"
    if "listeners t = PeekListeners" "stage t = AwaitPeekInfo opts"
       "fst (peekInfo_data X frame t) = Some (Inr greeting)" "checkOptions X greeting opts = Some e"
    using that
    by (cases "peekInfo_data X frame t")
       (simp add: on_data_def connect_after_peek_def connect_catch_def)
  have "stage (connect_catch (Some e) t) =
          Failed (Some (if code e = Some ''ECONNREFUSED''
                        then NatsError ''CONNECTION_REFUSED'' (Some e) else e))"
    by (simp add: connect_catch_def errorForCode_def CONNECTION_REFUSED_def)
  then show ?thesis
    using close thrown checked by (simp add: Let_def)
qed

theorem connect_rejection_witness:
  "stage (step base_client SockClose (run base_client [Connect hp0 opts0, SockError refused] init))
     = Failed (Some (NatsError ''CONNECTION_REFUSED'' (Some refused))) \<and>
   stage (step base_client SockClose (run base_client [Connect hp0 opts0, SockError boom] init))
     = Failed (Some boom) \<and>
   stage (step base_client (SockData bad_greeting) (run base_client [Connect hp0 opts0, SockConnect] init))
     = Failed (Some (Error None ''SyntaxError'')) \<and>
   stage (step base_client (SockData tls_greeting) (run base_client [Connect hp0 no_tls, SockConnect] init))
     = Failed (Some (NatsError ''SERVER_OPTION_NA'' None))"
proof -
  let ?d = "run base_client [Connect hp0 opts0, SockError refused] init"
  let ?b = "run base_client [Connect hp0 opts0, SockError boom] init"
  let ?p = "run base_client [Connect hp0 opts0, SockConnect] init"
  let ?q = "run base_client [Connect hp0 no_tls, SockConnect] init"
  have d: "listeners ?d \<noteq> NoListeners" "listeners ?d \<noteq> PumpListeners" "captured ?d = Some refused"
    by code_simp+
  have b: "listeners ?b \<noteq> NoListeners" "listeners ?b \<noteq> PumpListeners" "captured ?b = Some boom"
    by code_simp+
  have p: "listeners ?p = PeekListeners" "stage ?p = AwaitPeekInfo opts0"
          "fst (peekInfo_data base_client bad_greeting ?p) = Some (Inl (Error None ''SyntaxError''))"
    by code_simp+
  have q: "listeners ?q = PeekListeners" "stage ?q = AwaitPeekInfo no_tls"
          "fst (peekInfo_data base_client tls_greeting ?q)
             = Some (Inr \<lparr>tls_required = True, json = tls_payload\<rparr>)"
          "checkOptions base_client \<lparr>tls_required = True, json = tls_payload\<rparr> no_tls
             = Some (NatsError ''SERVER_OPTION_NA'' None)"
    by code_simp+
  have c: "code refused = Some ''ECONNREFUSED''" "code boom \<noteq> Some ''ECONNREFUSED''"
    by (simp_all add: refused_def boom_def)
  show ?thesis
    using d b p q c
      connect_rejection [where t = ?d and e = refused and X = base_client]
      connect_rejection [where t = ?b and e = boom and X = base_client]
      connect_rejection [where t = ?p and X = base_client and opts = opts0
        and frame = bad_greeting and e = "Error None ''SyntaxError''"]
      connect_rejection [where t = ?q and X = base_client and opts = no_tls
        and frame = tls_greeting and greeting = "\<lparr>tls_required = True, json = tls_payload\<rparr>"
        and e = "NatsError ''SERVER_OPTION_NA'' None"]
    by (simp add: Let_def)
qed

text \<open>
  Claim C4. The socket closes with no error event before it: during the dial, during
  the greeting read, and during the TLS handshake. The variable for the error is still
  \<^verbatim>\<open>undefined\<close>, so the awaited promise rejects with \<^verbatim>\<open>undefined\<close>. The \<^verbatim>\<open>catch\<close> of
  \<^verbatim>\<open>connect\<close> then reads \<^verbatim>\<open>code\<close> from it, which throws: \<^verbatim>\<open>connect\<close> rejects with
  that \<^verbatim>\<open>TypeError\<close>, a second error, and not with the cause it was handling.
\<close>

theorem close_without_error_throws:
  "captured (run base_client [Connect hp0 opts0, SockConnect] init) = None \<and>
   stage (run base_client [Connect hp0 opts0, SockConnect, SockClose] init)
     = Failed (Some (TypeError ''cannot destructure undefined'')) \<and>
   captured (run base_client [Connect hp0 opts0] init) = None \<and>
   stage (run base_client [Connect hp0 opts0, SockClose] init)
     = Failed (Some (TypeError ''cannot destructure undefined'')) \<and>
   captured (run base_client [Connect hp0 opts0, SockConnect, SockData tls_greeting] init) = None \<and>
   stage (run base_client [Connect hp0 opts0, SockConnect, SockData tls_greeting, SockClose] init)
     = Failed (Some (TypeError ''cannot destructure undefined''))"
  by code_simp

section \<open>Closing more than once\<close>

text \<open>
  Claim C1. On a connected transport \<^verbatim>\<open>close()\<close> with no error sends the
  acknowledgment and waits for the write, and \<^verbatim>\<open>done\<close> stays false meanwhile. A
  \<^verbatim>\<open>close(err)\<close> that comes before the callback of the write passes the guard, runs to
  its end and resolves the closure notification with its own cause; the first call
  calls \<^verbatim>\<open>resolve\<close> again when it goes on. So the notification holds the cause of the
  second call, not of the first. With \<^verbatim>\<open>disconnect()\<close> as the second call the
  acknowledgment is written twice and \<^verbatim>\<open>resolve\<close> is called twice.
\<close>

theorem second_close_decides_cause:
  "resolve_calls (run base_client (handshake @ [Close None]) init) = [] \<and>
   closed (run base_client (handshake @ [Close None, Close (Some boom)]) init)
     = Resolved (Some boom) \<and>
   resolve_calls (run base_client (handshake @ [Close None, Close (Some boom), WriteDone None]) init)
     = [Some boom, None] \<and>
   written (run base_client (handshake @ [Close None, Disconnect]) init)
     = [[43, 79, 75, 13, 10], [43, 79, 75, 13, 10]] \<and>
   resolve_calls (run base_client (handshake @ [Close None, Disconnect, WriteDone None, WriteDone None]) init)
     = [None, None]"
  by code_simp

section \<open>The frame consumer along every run\<close>



























lemma drain_queue:
  "can_drain t \<Longrightarrow> length (yields t) \<le> n \<Longrightarrow>
     observed (run X (replicate n Next) t) = observed t @ yields t \<and>
     yields (run X (replicate n Next) t) = []"
proof (induction n arbitrary: t)
  case 0
  then show ?case by simp
next
  case (Suc n)
  show ?case
  proof (cases "yields t")
    case Nil
    have "can_drain (iterate t) \<and> yields (iterate t) = [] \<and> observed (iterate t) = observed t"
      using Nil
      by (cases "iter t"; cases "signal t") (simp_all add: iterate_def drain_def can_drain_def)
    then show ?thesis
      using Suc.IH [of "iterate t"] Nil by simp
  next
    case (Cons f fs)
    have "iterate t = t\<lparr>yields := fs, observed := observed t @ [f], iter := AtYield\<rparr>"
      using Cons Suc.prems(1)
      by (cases "iter t") (auto simp: iterate_def drain_def can_drain_def)
    moreover have "can_drain (t\<lparr>yields := fs, observed := observed t @ [f], iter := AtYield\<rparr>)"
      by (simp add: can_drain_def)
    ultimately show ?thesis
      using Suc.IH [of "t\<lparr>yields := fs, observed := observed t @ [f], iter := AtYield\<rparr>"]
        Suc.prems(2) Cons
      by simp
  qed
qed




section \<open>The greeting read\<close>

lemma peek_wait:
  assumes "listeners t = PeekListeners" "stage t = AwaitPeekInfo opts"
    and "no_message X (DataBuffer_concat (yields t @ [c]))"
  shows "on_data X c t = t\<lparr>yields := yields t @ [c]\<rparr>"
  using assms by (auto simp: on_data_def peekInfo_data_def no_message_def Let_def)

lemma peek_prefix:
  "listeners t = PeekListeners \<Longrightarrow> stage t = AwaitPeekInfo opts \<Longrightarrow>
   (\<forall>k. 0 < k \<and> k \<le> length pre \<longrightarrow> no_message X (DataBuffer_concat (yields t @ take k pre))) \<Longrightarrow>
     run X (map SockData pre) t = t\<lparr>yields := yields t @ pre\<rparr>"
proof (induction pre arbitrary: t)
  case Nil
  then show ?case by simp
next
  case (Cons c pre)
  from Cons.prems(3) [rule_format, of 1]
  have "no_message X (DataBuffer_concat (yields t @ [c]))"
    by simp
  then have one: "on_data X c t = t\<lparr>yields := yields t @ [c]\<rparr>"
    using Cons.prems(1,2) by (intro peek_wait) simp_all
  have rest: "no_message X (DataBuffer_concat (yields (t\<lparr>yields := yields t @ [c]\<rparr>) @ take k pre))"
    if "0 < k \<and> k \<le> length pre" for k
    using Cons.prems(3) [rule_format, of "Suc k"] that by simp
  have "run X (map SockData pre) (t\<lparr>yields := yields t @ [c]\<rparr>) =
          t\<lparr>yields := yields t @ [c]\<rparr>\<lparr>yields := yields (t\<lparr>yields := yields t @ [c]\<rparr>) @ pre\<rparr>"
    using Cons.prems(1,2) rest by (intro Cons.IH) simp_all
  then show ?case
    using one by simp
qed

lemma peek_resolves:
  assumes "extractProtocolMessage X (DataBuffer_concat (yields t @ [c])) = Some pm" "pm \<noteq> []"
    and "INFO_exec X pm = Some m1" "JSON_parse X m1 = Inr greeting"
  shows "peekInfo_data X c t = (Some (Inr greeting), t\<lparr>yields := yields t @ [c], listeners := NoListeners\<rparr>)"
  using assms by (simp add: peekInfo_data_def removeAllListeners_def Let_def)


lemma dialled:
  "run X [Connect hp opts, SockConnect] init =
     init\<lparr>socket := Some Socket, options := Some opts, listeners := PeekListeners,
          stage := AwaitPeekInfo opts, dialed := Some hp, noDelay := True\<rparr>"
  by (simp add: init_def connect_def dial_def on_connect_def connect_after_dial_def
        peekInfo_def removeAllListeners_def)

lemma queue_connect_after_peek:
  "yields (connect_after_peek X greeting opts t) = yields t \<and>
   observed (connect_after_peek X greeting opts t) = observed t"
  by (cases "checkOptions X greeting opts"; cases "tls_required greeting")
     (simp_all add: connect_after_peek_def connect_catch_def startTLS_def connect_finish_def
        setupHandlers_def Let_def)

text \<open>
  Claim C2, as the code has it. The chunks \<open>pre\<close> hold no protocol message however many
  of them have arrived, and with the chunk \<open>c\<close> they hold the greeting line, which
  parses to \<open>greeting\<close>; \<open>c\<close> may go on after the line. Then \<^verbatim>\<open>connect\<close> still waits
  after \<open>pre\<close>, the greeting read resolves with \<open>greeting\<close> at \<open>c\<close>, and the queue holds
  exactly the chunks received, in order. When the option checker accepts the greeting,
  \<^verbatim>\<open>connect\<close> completes, after the TLS handshake if the greeting asks for one, and the
  consumer is then given exactly these chunks in order: the bytes after the greeting
  line, and the greeting line itself.
\<close>

theorem greeting_stays_queued:
  "(\<forall>k. 0 < k \<and> k \<le> length pre \<longrightarrow> no_message X (DataBuffer_concat (take k pre))) \<and>
   extractProtocolMessage X (DataBuffer_concat (pre @ [c])) = Some pm \<and> pm \<noteq> [] \<and>
   INFO_exec X pm = Some m1 \<and> JSON_parse X m1 = Inr greeting \<longrightarrow>
     stage (run X (Connect hp opts # SockConnect # map SockData pre) init) = AwaitPeekInfo opts \<and>
     fst (peekInfo_data X c (run X (Connect hp opts # SockConnect # map SockData pre) init))
       = Some (Inr greeting) \<and>
     yields (run X (Connect hp opts # SockConnect # map SockData (pre @ [c])) init) = pre @ [c] \<and>
     observed (run X (Connect hp opts # SockConnect # map SockData (pre @ [c])) init) = [] \<and>
     (checkOptions X greeting opts = None \<and> \<not> tls_required greeting \<longrightarrow>
        connected (run X (Connect hp opts # SockConnect # map SockData (pre @ [c])) init) \<and>
        observed (run X (Connect hp opts # SockConnect # map SockData (pre @ [c])
                          @ replicate (Suc (length pre)) Next) init) = pre @ [c]) \<and>
     (checkOptions X greeting opts = None \<and> tls_required greeting \<longrightarrow>
        \<not> connected (run X (Connect hp opts # SockConnect # map SockData (pre @ [c])) init) \<and>
        connected (run X (Connect hp opts # SockConnect # map SockData (pre @ [c])
                          @ [SockSecure]) init) \<and>
        yields (run X (Connect hp opts # SockConnect # map SockData (pre @ [c])
                          @ [SockSecure]) init) = pre @ [c] \<and>
        observed (run X (Connect hp opts # SockConnect # map SockData (pre @ [c])
                          @ SockSecure # replicate (Suc (length pre)) Next) init) = pre @ [c])"
proof (intro impI, elim conjE)
  define t0 where "t0 = run X [Connect hp opts, SockConnect] init"
  let ?t0 = t0
  let ?t1 = "?t0\<lparr>yields := pre\<rparr>"
  let ?t2 = "?t0\<lparr>yields := pre @ [c], listeners := NoListeners\<rparr>"
  let ?s = "connect_after_peek X greeting opts ?t2"
  let ?n = "Suc (length pre)"
  assume quiet: "\<forall>k. 0 < k \<and> k \<le> length pre \<longrightarrow> no_message X (DataBuffer_concat (take k pre))"
    and pm: "extractProtocolMessage X (DataBuffer_concat (pre @ [c])) = Some pm" "pm \<noteq> []"
    and parsed: "INFO_exec X pm = Some m1" "JSON_parse X m1 = Inr greeting"
  have t0: "listeners ?t0 = PeekListeners" "stage ?t0 = AwaitPeekInfo opts" "yields ?t0 = []"
    "observed ?t0 = []" "iter ?t0 = AwaitSignal" "signal ?t0 = Pending" "\<not> connected ?t0"
    unfolding t0_def dialled by (simp_all add: init_def)
  have split: "run X (Connect hp opts # SockConnect # es) init = run X es ?t0" for es
    by (simp add: t0_def)
  have "run X (map SockData pre) ?t0 = ?t0\<lparr>yields := yields ?t0 @ pre\<rparr>"
    using t0(1,2) quiet by (intro peek_prefix) (simp_all add: t0(3))
  then have t1: "run X (map SockData pre) ?t0 = ?t1"
    by (simp add: t0(3))
  have peek: "peekInfo_data X c ?t1 = (Some (Inr greeting), ?t2)"
    using peek_resolves [of X ?t1 c pm m1 greeting] pm parsed by simp
  have "on_data X c ?t1 = ?s"
    using peek t0(1,2) by (simp add: on_data_def)
  then have s: "run X (map SockData (pre @ [c])) ?t0 = ?s"
    by (simp add: run_append t1)
  have q: "yields ?s = pre @ [c]" "observed ?s = []"
    using queue_connect_after_peek [of X greeting opts ?t2] t0(4) by simp_all
  have plain: "connected ?s \<and> observed (run X (replicate ?n Next) ?s) = pre @ [c]"
    if "checkOptions X greeting opts = None" "\<not> tls_required greeting"
  proof -
    have f: "?s = connect_finish ?t2"
      using that by (simp add: connect_after_peek_def)
    have "connected ?s" "can_drain ?s"
      unfolding f using t0(5,6)
      by (simp_all add: connect_finish_def setupHandlers_def can_drain_def resolve_def Let_def)
    then show ?thesis
      using drain_queue [of ?s ?n X] q by simp
  qed
  have secure: "\<not> connected ?s \<and> connected (on_secure ?s) \<and> yields (on_secure ?s) = pre @ [c] \<and>
      observed (run X (replicate ?n Next) (on_secure ?s)) = pre @ [c]"
    if "checkOptions X greeting opts = None" "tls_required greeting"
  proof -
    have f: "?s = startTLS opts (?t2\<lparr>stage := AwaitStartTLS\<rparr>)"
      using that by (simp add: connect_after_peek_def)
    have nc: "\<not> connected ?s"
      using t0(7) by (simp add: f startTLS_def)
    have g: "on_secure ?s = connect_finish (removeAllListeners ?s\<lparr>socket := Some TLSSocket\<rparr>)"
      by (simp add: f startTLS_def on_secure_def connect_after_tls_def)
    have h: "connected (on_secure ?s)" "can_drain (on_secure ?s)"
      "yields (on_secure ?s) = pre @ [c]" "observed (on_secure ?s) = []"
      unfolding g unfolding f
      using t0(4,5,6)
      by (simp_all add: startTLS_def connect_finish_def setupHandlers_def removeAllListeners_def
            can_drain_def resolve_def Let_def)
    show ?thesis
      using nc h drain_queue [of "on_secure ?s" ?n X] by simp
  qed
  show "stage (run X (Connect hp opts # SockConnect # map SockData pre) init) = AwaitPeekInfo opts \<and>
     fst (peekInfo_data X c (run X (Connect hp opts # SockConnect # map SockData pre) init))
       = Some (Inr greeting) \<and>
     yields (run X (Connect hp opts # SockConnect # map SockData (pre @ [c])) init) = pre @ [c] \<and>
     observed (run X (Connect hp opts # SockConnect # map SockData (pre @ [c])) init) = [] \<and>
     (checkOptions X greeting opts = None \<and> \<not> tls_required greeting \<longrightarrow>
        connected (run X (Connect hp opts # SockConnect # map SockData (pre @ [c])) init) \<and>
        observed (run X (Connect hp opts # SockConnect # map SockData (pre @ [c])
                          @ replicate (Suc (length pre)) Next) init) = pre @ [c]) \<and>
     (checkOptions X greeting opts = None \<and> tls_required greeting \<longrightarrow>
        \<not> connected (run X (Connect hp opts # SockConnect # map SockData (pre @ [c])) init) \<and>
        connected (run X (Connect hp opts # SockConnect # map SockData (pre @ [c])
                          @ [SockSecure]) init) \<and>
        yields (run X (Connect hp opts # SockConnect # map SockData (pre @ [c])
                          @ [SockSecure]) init) = pre @ [c] \<and>
        observed (run X (Connect hp opts # SockConnect # map SockData (pre @ [c])
                          @ SockSecure # replicate (Suc (length pre)) Next) init) = pre @ [c])"
    unfolding split
    using t1 s peek q plain secure t0(2) by (simp add: run_append)
qed


theorem greeting_stays_queued_witness:
  "fst (peekInfo_data base_client greeting_and_ping
     (run base_client (Connect hp0 opts0 # SockConnect # map SockData []) init))
     = Some (Inr \<lparr>tls_required = False, json = ''{}''\<rparr>) \<and>
   observed (run base_client
     (Connect hp0 opts0 # SockConnect # map SockData ([] @ [greeting_and_ping])
        @ replicate (Suc (length ([] :: frame list))) Next) init)
     = [] @ [greeting_and_ping] \<and>
   fst (peekInfo_data base_client greeting_end
     (run base_client (Connect hp0 opts0 # SockConnect # map SockData split_greeting) init))
     = Some (Inr \<lparr>tls_required = False, json = ''{}''\<rparr>) \<and>
   yields (run base_client
     (Connect hp0 opts0 # SockConnect # map SockData (split_greeting @ [greeting_end])) init)
     = split_greeting @ [greeting_end] \<and>
   connected (run base_client
     (Connect hp0 opts0 # SockConnect # map SockData (split_greeting @ [greeting_end])) init) \<and>
   observed (run base_client
     (Connect hp0 opts0 # SockConnect # map SockData (split_greeting @ [greeting_end])
        @ replicate (Suc (length split_greeting)) Next) init)
     = split_greeting @ [greeting_end] \<and>
   connected (run base_client
     (Connect hp0 opts0 # SockConnect # map SockData ([] @ [tls_greeting]) @ [SockSecure]) init) \<and>
   observed (run base_client
     (Connect hp0 opts0 # SockConnect # map SockData ([] @ [tls_greeting])
        @ SockSecure # replicate (Suc (length ([] :: frame list))) Next) init)
     = [] @ [tls_greeting]"
proof -
  have quiet: "\<forall>k. 0 < k \<and> k \<le> length split_greeting \<longrightarrow>
                 no_message base_client (DataBuffer_concat (take k split_greeting))"
  proof (intro allI impI)
    fix k :: nat
    assume "0 < k \<and> k \<le> length split_greeting"
    then have "k = 1 \<or> k = 2"
      by (auto simp: split_greeting_def)
    moreover have "no_message base_client (DataBuffer_concat (take 1 split_greeting))"
      "no_message base_client (DataBuffer_concat (take 2 split_greeting))"
      by code_simp+
    ultimately show "no_message base_client (DataBuffer_concat (take k split_greeting))"
      by auto
  qed
  have line: "extractProtocolMessage base_client (DataBuffer_concat (split_greeting @ [greeting_end]))
                = Some (''INFO {}'' @ CRLF)"
    "extractProtocolMessage base_client (DataBuffer_concat ([] @ [greeting_and_ping]))
                = Some (''INFO {}'' @ CRLF)"
    "''INFO {}'' @ CRLF \<noteq> []"
    "INFO_exec base_client (''INFO {}'' @ CRLF) = Some ''{}''"
    "JSON_parse base_client ''{}'' = Inr \<lparr>tls_required = False, json = ''{}''\<rparr>"
    "checkOptions base_client \<lparr>tls_required = False, json = ''{}''\<rparr> opts0 = None"
    "\<not> tls_required \<lparr>tls_required = False, json = ''{}''\<rparr>"
    by code_simp+
  have secure: "extractProtocolMessage base_client (DataBuffer_concat ([] @ [tls_greeting]))
                = Some (''INFO '' @ tls_payload @ CRLF)"
    "''INFO '' @ tls_payload @ CRLF \<noteq> []"
    "INFO_exec base_client (''INFO '' @ tls_payload @ CRLF) = Some tls_payload"
    "JSON_parse base_client tls_payload = Inr \<lparr>tls_required = True, json = tls_payload\<rparr>"
    "checkOptions base_client \<lparr>tls_required = True, json = tls_payload\<rparr> opts0 = None"
    "tls_required \<lparr>tls_required = True, json = tls_payload\<rparr>"
    by code_simp+
  have none: "\<forall>k. 0 < k \<and> k \<le> length ([] :: frame list) \<longrightarrow>
                no_message base_client (DataBuffer_concat (take k []))"
    by simp
  show ?thesis
    using
      greeting_stays_queued [where X = base_client and pre = "[]" and c = greeting_and_ping
        and pm = "''INFO {}'' @ CRLF" and ?m1.0 = "''{}''"
        and greeting = "\<lparr>tls_required = False, json = ''{}''\<rparr>" and hp = hp0 and opts = opts0]
      greeting_stays_queued [where X = base_client and pre = split_greeting and c = greeting_end
        and pm = "''INFO {}'' @ CRLF" and ?m1.0 = "''{}''"
        and greeting = "\<lparr>tls_required = False, json = ''{}''\<rparr>" and hp = hp0 and opts = opts0]
      greeting_stays_queued [where X = base_client and pre = "[]" and c = tls_greeting
        and pm = "''INFO '' @ tls_payload @ CRLF" and ?m1.0 = tls_payload
        and greeting = "\<lparr>tls_required = True, json = tls_payload\<rparr>" and hp = hp0 and opts = opts0]
      quiet line secure none
    by blast
qed

text \<open>
  Claim C2, as it is stated, fails: the bytes of the greeting are not kept from the
  consumer. After a handshake on the one chunk \<^verbatim>\<open>INFO {}\<close> the first frame the consumer
  is given is that chunk; when a further line follows the greeting in the chunk, the
  frame it is given holds the greeting line before that line.
\<close>

theorem greeting_reaches_consumer:
  "stage (run base_client [Connect hp0 opts0, SockConnect, SockData plain_greeting] init) = Fulfilled \<and>
   extractProtocolMessage base_client plain_greeting = Some (''INFO {}'' @ CRLF) \<and>
   observed (run base_client [Connect hp0 opts0, SockConnect, SockData plain_greeting, Next] init)
     = [plain_greeting] \<and>
   stage (run base_client [Connect hp0 opts0, SockConnect, SockData greeting_and_ping] init) = Fulfilled \<and>
   observed (run base_client [Connect hp0 opts0, SockConnect, SockData greeting_and_ping, Next] init)
     = [TextEncoder_encode (''INFO {}'' @ CRLF @ ''PING'' @ CRLF)]"
  by code_simp

end
